theory Spec2Isabelle
  imports Main "HOL-Library.AList" "HOL-Library.Sublist"
begin

section \<open>JavaScript values\<close>

text \<open>
  The values that flow through \<^verbatim>\<open>src/public.js\<close>: documents, option bags, backend
  replies and rejection reasons.  An object is the list of its own properties in
  insertion order.  Numbers are integers plus \<^verbatim>\<open>NaN\<close>: the source only tests numbers
  for truthiness and compares them with \<^verbatim>\<open>0\<close> and \<^verbatim>\<open>409\<close>, where a fractional number
  behaves like any other non-zero one.  Functions are not values of this model, and
  objects are plain data: they can be extended and have no accessors.
\<close>

datatype jsval =
    JUndefined
  | JNull
  | JBool bool
  | JNum int
  | JNaN
  | JStr string
  | JArr "jsval list"
  | JObj "(string \<times> jsval) list"

type_synonym obj = "(string \<times> jsval) list"

text \<open>ToBoolean: the falsy values are undefined, null, false, 0, NaN and the empty string.\<close>

fun truthy :: "jsval \<Rightarrow> bool" where
  "truthy JUndefined = False"
| "truthy JNull = False"
| "truthy (JBool b) = b"
| "truthy (JNum n) = (n \<noteq> 0)"
| "truthy JNaN = False"
| "truthy (JStr s) = (s \<noteq> [])"
| "truthy (JArr xs) = True"
| "truthy (JObj ps) = True"

fun nullish :: "jsval \<Rightarrow> bool" where
  "nullish JUndefined = True"
| "nullish JNull = True"
| "nullish v = False"

text \<open>\<^verbatim>\<open>doc.hasOwnProperty(k)\<close>, \<^verbatim>\<open>doc[k]\<close>, \<^verbatim>\<open>doc[k] = v\<close> and \<^verbatim>\<open>delete doc[k]\<close> on an object.
  An assignment to an existing property keeps its position, a new one is appended.\<close>

definition hasOwnProperty :: "obj \<Rightarrow> string \<Rightarrow> bool" where
  "hasOwnProperty d k = (map_of d k \<noteq> None)"

definition get_prop :: "obj \<Rightarrow> string \<Rightarrow> jsval" where
  "get_prop d k = (case map_of d k of None \<Rightarrow> JUndefined | Some v \<Rightarrow> v)"

definition set_prop :: "obj \<Rightarrow> string \<Rightarrow> jsval \<Rightarrow> obj" where
  "set_prop d k v = AList.update k v d"

definition delete_prop :: "obj \<Rightarrow> string \<Rightarrow> obj" where
  "delete_prop d k = AList.delete k d"

text \<open>\<^verbatim>\<open>v[k]\<close> for the property names the source reads.  None of them exists on a
  primitive or on an array, so there the read gives undefined.  On null and undefined a
  plain read throws: the definitions below test \<open>nullish\<close> before such a read, and use
  \<open>member\<close> directly only where the source reads through lodash's \<^verbatim>\<open>get\<close>, which gives
  undefined instead.\<close>

fun member :: "jsval \<Rightarrow> string \<Rightarrow> jsval" where
  "member (JObj ps) k = get_prop ps k"
| "member v k = JUndefined"

section \<open>Errors, outcomes, the backend and the heap\<close>

text \<open>
  \<^verbatim>\<open>ReferenceError v\<close> stands for \<^verbatim>\<open>new ReferenceError('doc ' + v + 'not found')\<close>, the
  only ReferenceError the source raises; \<^verbatim>\<open>Reason v\<close> is a rejection reason \<^verbatim>\<open>v\<close> of the
  backend, handed on untouched.
\<close>

datatype js_error =
    Error string
  | TypeError
  | ReferenceError jsval
  | Reason jsval

text \<open>A method either throws before it returns, or returns a promise that is rejected or
  fulfilled.\<close>

datatype 'a outcome = Throws js_error | Rejected js_error | Fulfilled 'a

text \<open>
  The backend \<^verbatim>\<open>this.db\<close> is an external collaborator.  A call is recorded with the
  contents of its argument at the time of the call, and the backend answers each call with
  a rejection reason (\<open>Inl\<close>) or a value (\<open>Inr\<close>).  It is taken not to write to the
  objects it is handed.
\<close>

datatype call =
    AllDocs obj
  | BulkGet "obj list"
  | CreateIndex "string list"
  | Put obj
  | Post obj

type_synonym backend = "call \<Rightarrow> jsval + jsval"

text \<open>Documents a caller passes in are objects on a heap, named by their address, so that
  writing to the caller's own object (and returning that very object) can be told apart
  from returning a copy.\<close>

type_synonym addr = nat

type_synonym heap = "addr \<Rightarrow> obj"

section \<open>save and update\<close>

text \<open>\<^verbatim>\<open>doc.hasOwnProperty('_id') && (doc._id || doc._id === 0) ? 'put' : 'post'\<close>.  The method
  \<^verbatim>\<open>hasOwnProperty\<close> is looked up on the document itself: an own property of that name hides
  the inherited method, and as no value of this model is a function the call then throws
  a TypeError.\<close>

definition save_method :: "obj \<Rightarrow> js_error + (obj \<Rightarrow> call)" where
  "save_method doc =
     (if hasOwnProperty doc ''hasOwnProperty'' then Inl TypeError
      else Inr (if hasOwnProperty doc ''_id'' \<and>
                   (truthy (get_prop doc ''_id'') \<or> get_prop doc ''_id'' = JNum 0)
                then Put else Post))"

text \<open>\<^verbatim>\<open>tidySaveResults\<close>: \<^verbatim>\<open>delete meta.status\<close> changes the backend's reply only, and throws
  when the reply is null or undefined; then the two assignments to the caller's object.\<close>

definition tidySaveResults :: "heap \<Rightarrow> addr \<Rightarrow> jsval \<Rightarrow> heap \<times> addr outcome" where
  "tidySaveResults h a meta =
     (if nullish meta then (h, Rejected TypeError)
      else (h(a := set_prop (set_prop (h a) ''_id'' (member meta ''id'')) ''_rev'' (member meta ''rev'')),
            Fulfilled a))"

text \<open>\<^verbatim>\<open>save\<close>: a throw while the method is chosen leaves the function before the backend is
  called and before anything is written.\<close>

definition save :: "backend \<Rightarrow> heap \<Rightarrow> addr \<Rightarrow> call list \<times> heap \<times> addr outcome" where
  "save db h a =
     (case save_method (h a) of
        Inl e \<Rightarrow> ([], h, Throws e)
      | Inr meth \<Rightarrow>
          (let c = meth (h a) in
           case db c of
             Inl reason \<Rightarrow> ([c], h, Rejected (Reason reason))
           | Inr meta \<Rightarrow> (case tidySaveResults h a meta of (h', r) \<Rightarrow> ([c], h', r))))"

text \<open>\<^verbatim>\<open>update\<close>: always \<^verbatim>\<open>put\<close>, then the same two assignments.\<close>

definition update_then :: "heap \<Rightarrow> addr \<Rightarrow> jsval \<Rightarrow> heap \<times> addr outcome" where
  "update_then h a meta =
     (if nullish meta then (h, Rejected TypeError)
      else (h(a := set_prop (set_prop (h a) ''_id'' (member meta ''id'')) ''_rev'' (member meta ''rev'')),
            Fulfilled a))"

definition update :: "backend \<Rightarrow> heap \<Rightarrow> addr \<Rightarrow> call list \<times> heap \<times> addr outcome" where
  "update db h a =
     (let c = Put (h a) in
      case db c of
        Inl reason \<Rightarrow> ([c], h, Rejected (Reason reason))
      | Inr meta \<Rightarrow> (case update_then h a meta of (h', r) \<Rightarrow> ([c], h', r)))"

section \<open>all\<close>

text \<open>\<^verbatim>\<open>defaults(opts || {}, { include_docs: true })\<close>: lodash's \<^verbatim>\<open>defaults\<close> fills a property
  in when it reads as undefined (absent, or present and undefined).  A call without
  options is \<open>None\<close>.\<close>

definition defaults_include_docs :: "obj option \<Rightarrow> obj" where
  "defaults_include_docs opts =
     (let ob = (case opts of None \<Rightarrow> [] | Some ob \<Rightarrow> ob) in
      if get_prop ob ''include_docs'' = JUndefined then set_prop ob ''include_docs'' (JBool True)
      else ob)"

text \<open>\<^verbatim>\<open>doc._id.match(designDocRegex)\<close> with \<^verbatim>\<open>designDocRegex = new RegExp('^_design/')\<close>, read
  as a condition: the match is truthy when the string starts with \<^verbatim>\<open>_design/\<close>.  The call
  throws when \<^verbatim>\<open>doc\<close> is null or undefined, and when \<^verbatim>\<open>doc._id\<close> is not a string (no
  \<^verbatim>\<open>match\<close> to call).\<close>

definition designDocRegex_match :: "jsval \<Rightarrow> js_error + bool" where
  "designDocRegex_match doc =
     (if nullish doc then Inl TypeError
      else case member doc ''_id'' of
             JStr s \<Rightarrow> Inr (prefix ''_design/'' s)
           | _ \<Rightarrow> Inl TypeError)"

text \<open>The body of \<^verbatim>\<open>if (!opts.include_docs) { ... }\<close>, where \<^verbatim>\<open>doc\<close> is the row \<^verbatim>\<open>v\<close> itself.
  The file is in strict mode, so writing a property to a primitive row throws, as reading
  one from null or undefined does.  (A row that is an array is outside this model: it is
  given the same error.)\<close>

fun rework_row :: "jsval \<Rightarrow> js_error + jsval" where
  "rework_row (JObj v) =
     (let d1 = set_prop v ''_id'' (get_prop v ''id'') in
      if nullish (get_prop d1 ''value'') then Inl TypeError
      else
        let d2 = set_prop d1 ''_rev'' (member (get_prop d1 ''value'') ''rev'');
            d3 = delete_prop d2 ''id'';
            d4 = delete_prop d3 ''value'';
            d5 = delete_prop d4 ''key''
        in Inr (JObj d5))"
| "rework_row v = Inl TypeError"

text \<open>\<^verbatim>\<open>simplifyAllDocSet\<close>, the reducer: \<^verbatim>\<open>r\<close> is the array built so far, \<^verbatim>\<open>v\<close> the row.\<close>

definition simplifyAllDocSet :: "obj \<Rightarrow> jsval list \<Rightarrow> jsval \<Rightarrow> js_error + jsval list" where
  "simplifyAllDocSet opts r v =
     (case (if truthy (get_prop opts ''include_docs'')
            then (if nullish v then Inl TypeError else Inr (member v ''doc''))
            else rework_row v) of
        Inl e \<Rightarrow> Inl e
      | Inr doc \<Rightarrow>
          if \<not> truthy (get_prop opts ''includeDesignDocs'') then Inr (r @ [doc])
          else (case designDocRegex_match doc of
                  Inl e \<Rightarrow> Inl e
                | Inr m \<Rightarrow> Inr (if m then r @ [doc] else r)))"

fun reduce_rows :: "obj \<Rightarrow> jsval list \<Rightarrow> jsval list \<Rightarrow> js_error + jsval list" where
  "reduce_rows opts r [] = Inr r"
| "reduce_rows opts r (v # vs) =
     (case simplifyAllDocSet opts r v of
        Inl e \<Rightarrow> Inl e
      | Inr r' \<Rightarrow> reduce_rows opts r' vs)"

text \<open>\<^verbatim>\<open>handleReceivedDocs\<close>: \<^verbatim>\<open>docs.rows.reduce(simplifyAllDocSet, [])\<close>.\<close>

definition handleReceivedDocs :: "obj \<Rightarrow> jsval \<Rightarrow> jsval list outcome" where
  "handleReceivedDocs opts docs =
     (if nullish docs then Rejected TypeError
      else case member docs ''rows'' of
             JArr rows \<Rightarrow> (case reduce_rows opts [] rows of
                             Inl e \<Rightarrow> Rejected e
                           | Inr r \<Rightarrow> Fulfilled r)
           | _ \<Rightarrow> Rejected TypeError)"

text \<open>The method \<^verbatim>\<open>all\<close> (here \<open>all_docs\<close>): the one backend call and the outcome.\<close>

definition all_docs :: "backend \<Rightarrow> obj option \<Rightarrow> call list \<times> jsval list outcome" where
  "all_docs db opts0 =
     (let opts = defaults_include_docs opts0; c = AllDocs opts in
      case db c of
        Inl reason \<Rightarrow> ([c], Rejected (Reason reason))
      | Inr docs \<Rightarrow> ([c], handleReceivedDocs opts docs))"

section \<open>bulkGet\<close>

text \<open>What a caller can hand to \<^verbatim>\<open>bulkGet\<close>: nothing (a falsy value), an array of entries, or
  an options object whose \<^verbatim>\<open>docs\<close> is an array of entries (\<open>Some\<close>) or is not an array
  (\<open>None\<close>).  The entries are objects of the caller, on the heap.  Other properties of an
  options object are handed to the backend as they are and play no part here.\<close>

datatype bulkGet_opts = NoOpts | DocsArray "addr list" | OptsObject "addr list option"

definition remapIdRev :: "obj \<Rightarrow> obj" where
  "remapIdRev doc =
     (let d1 = (if truthy (get_prop doc ''_id'') then set_prop doc ''id'' (get_prop doc ''_id'') else doc);
          d2 = (if truthy (get_prop d1 ''_rev'') then set_prop d1 ''rev'' (get_prop d1 ''_rev'') else d1);
          d3 = delete_prop d2 ''_rev''
      in delete_prop d3 ''_id'')"

text \<open>\<^verbatim>\<open>opts.docs.map(remapIdRev)\<close>: the entries are rewritten in place, one after the other;
  the new array holds the same objects.\<close>

fun remap_docs :: "heap \<Rightarrow> addr list \<Rightarrow> heap" where
  "remap_docs h [] = h"
| "remap_docs h (a # as) = remap_docs (h(a := remapIdRev (h a))) as"

text \<open>\<^verbatim>\<open>v[0]\<close>, \<^verbatim>\<open>k in Object(v)\<close> and lodash's \<^verbatim>\<open>get(docGroup, 'docs[0].ok')\<close>.  When the group is
  not null or undefined and has a property whose name is the whole string
  \<^verbatim>\<open>docs[0].ok\<close>, lodash takes the path to be that one key.  Otherwise the path is \<^verbatim>\<open>docs\<close>,
  \<^verbatim>\<open>0\<close>, \<^verbatim>\<open>ok\<close>, read one after the other, and the result is undefined as soon as a step
  meets null or undefined.  Of the values of this model only an object can have a property
  of that name.\<close>

fun index0 :: "jsval \<Rightarrow> jsval" where
  "index0 (JArr xs) = (case xs of [] \<Rightarrow> JUndefined | x # rest \<Rightarrow> x)"
| "index0 (JObj ps) = get_prop ps ''0''"
| "index0 (JStr s) = (case s of [] \<Rightarrow> JUndefined | c # rest \<Rightarrow> JStr [c])"
| "index0 v = JUndefined"

fun in_object :: "string \<Rightarrow> jsval \<Rightarrow> bool" where
  "in_object k (JObj ps) = hasOwnProperty ps k"
| "in_object k v = False"

definition get_docs0_ok :: "jsval \<Rightarrow> jsval" where
  "get_docs0_ok docGroup =
     (if in_object ''docs[0].ok'' docGroup then member docGroup ''docs[0].ok''
      else member (index0 (member docGroup ''docs'')) ''ok'')"

text \<open>\<^verbatim>\<open>tidyBulkGetDocs\<close>.  Building the message reads \<^verbatim>\<open>docGroup.id\<close>, which throws a
  TypeError of its own when the group is null or undefined.\<close>

definition tidyBulkGetDocs :: "jsval \<Rightarrow> js_error + jsval" where
  "tidyBulkGetDocs docGroup =
     (let doc = get_docs0_ok docGroup in
      if \<not> truthy doc
      then (if nullish docGroup then Inl TypeError
            else Inl (ReferenceError (member docGroup ''id'')))
      else Inr doc)"

fun map_tidyBulkGetDocs :: "jsval list \<Rightarrow> js_error + jsval list" where
  "map_tidyBulkGetDocs [] = Inr []"
| "map_tidyBulkGetDocs (g # gs) =
     (case tidyBulkGetDocs g of
        Inl e \<Rightarrow> Inl e
      | Inr d \<Rightarrow> (case map_tidyBulkGetDocs gs of
                    Inl e \<Rightarrow> Inl e
                  | Inr ds \<Rightarrow> Inr (d # ds)))"

definition mapBulkGetResultsToRoot :: "jsval \<Rightarrow> jsval list outcome" where
  "mapBulkGetResultsToRoot r =
     (if nullish r then Rejected TypeError
      else case member r ''results'' of
             JArr gs \<Rightarrow> (case map_tidyBulkGetDocs gs of
                           Inl e \<Rightarrow> Rejected e
                         | Inr ds \<Rightarrow> Fulfilled ds)
           | _ \<Rightarrow> Rejected TypeError)"

text \<open>The part of \<^verbatim>\<open>bulkGet\<close> after \<^verbatim>\<open>opts.docs\<close> is known to be an array.\<close>

definition bulkGet_docs :: "backend \<Rightarrow> heap \<Rightarrow> addr list \<Rightarrow> call list \<times> heap \<times> jsval list outcome" where
  "bulkGet_docs db h docs =
     (let h' = remap_docs h docs in
      if docs = [] then ([], h', Fulfilled [])
      else
        let c = BulkGet (map h' docs) in
        case db c of
          Inl reason \<Rightarrow> ([c], h', Rejected (Reason reason))
        | Inr r \<Rightarrow> ([c], h', mapBulkGetResultsToRoot r))"

definition bulkGet :: "backend \<Rightarrow> heap \<Rightarrow> bulkGet_opts \<Rightarrow> call list \<times> heap \<times> jsval list outcome" where
  "bulkGet db h opts =
     (case opts of
        NoOpts \<Rightarrow> ([], h, Throws (Error ''missing bulkGet opts''))
      | DocsArray docs \<Rightarrow> bulkGet_docs db h docs
      | OptsObject None \<Rightarrow>
          ([], h, Throws (Error ''bulkGet requires array of doc filters. please see couchdb bulkGet''))
      | OptsObject (Some docs) \<Rightarrow> bulkGet_docs db h docs)"

section \<open>createIndicies\<close>

text \<open>lodash's \<^verbatim>\<open>uniq\<close>: walk the array, keep a value unless it is already among the kept
  ones.\<close>

fun unique_from :: "'a list \<Rightarrow> 'a list \<Rightarrow> 'a list" where
  "unique_from result [] = result"
| "unique_from result (x # xs) = unique_from (if x \<in> set result then result else result @ [x]) xs"

definition unique :: "'a list \<Rightarrow> 'a list" where
  "unique xs = unique_from [] xs"

text \<open>The argument is one field name or an array of field names.\<close>

datatype indicies = Single string | Array "string list"

text \<open>\<^verbatim>\<open>if (err.status !== 409) throw err\<close>; a handler that does not throw fulfils the promise
  with undefined.\<close>

definition handleFailCreateIndicies :: "jsval \<Rightarrow> jsval outcome" where
  "handleFailCreateIndicies err =
     (if nullish err then Rejected TypeError
      else if member err ''status'' \<noteq> JNum 409 then Rejected (Reason err)
      else Fulfilled JUndefined)"

definition createIndicies :: "backend \<Rightarrow> indicies \<Rightarrow> call list \<times> jsval outcome" where
  "createIndicies db ix =
     (let fields = (case ix of Array xs \<Rightarrow> xs | Single x \<Rightarrow> [x]);
          c = CreateIndex (unique fields)
      in case db c of
           Inl err \<Rightarrow> ([c], handleFailCreateIndicies err)
         | Inr v \<Rightarrow> ([c], Fulfilled v))"

section \<open>destroy\<close>

text \<open>
  The replication handle \<^verbatim>\<open>this.syncEmitter\<close> is external.  What matters of it here is when
  it emits \<^verbatim>\<open>complete\<close> once \<^verbatim>\<open>cancel()\<close> has been called: inside the call (\<open>Some 0\<close>), in
  the \<open>k\<close>-th turn of a job that \<^verbatim>\<open>cancel()\<close> puts on the event loop (\<open>Some k\<close> with \<open>k\<close> at
  least one), or not at all (\<open>None\<close>, for a session that had completed before).
\<close>

datatype emitter = Emitter (complete_after: "nat option")

record pouchy =
  syncEmitter :: "emitter option"
  replicationOpts :: jsval

datatype event = ListenComplete | Cancel | CompleteEmitted | DbDestroy

text \<open>What is handed to \<^verbatim>\<open>chain.then(...)\<close>: the promise object \<^verbatim>\<open>isCompleteP\<close>, which is not
  a function, or the function \<^verbatim>\<open>bbPouchyDestroy\<close>.\<close>

datatype then_arg = NotAFunction | BbPouchyDestroy

text \<open>The synchronous part of \<^verbatim>\<open>destroy\<close>: the effects in program order, and the arguments
  of the successive \<^verbatim>\<open>.then\<close> calls on \<^verbatim>\<open>bluebird.resolve()\<close>.  The executor of
  \<^verbatim>\<open>new Promise\<close> runs at once, so the listener is bound where the promise is made.\<close>

definition destroy_sync :: "pouchy \<Rightarrow> event list \<times> then_arg list" where
  "destroy_sync p =
     (let chain0 = [];
          (evs, chain1) =
            (case syncEmitter p of
               None \<Rightarrow> ([], chain0)
             | Some e \<Rightarrow>
                 (let (evs1, chain1) =
                        (if truthy (replicationOpts p) \<and> truthy (member (replicationOpts p) ''live'')
                         then ([ListenComplete], chain0 @ [NotAFunction])
                         else ([], chain0))
                  in (evs1 @ [Cancel], chain1)))
      in (evs, chain1 @ [BbPouchyDestroy]))"

text \<open>
  What runs after the synchronous part is a queue of jobs, served first in, first out.
  bluebird queues one job, its drain, when \<^verbatim>\<open>.then\<close> is first called on the resolved promise,
  and the drain settles every link of the chain in order: a link whose \<^verbatim>\<open>.then\<close> argument
  is not a function ignores the argument and hands the value on (Promises/A+ 2.2.1 and
  2.2.7.3, which bluebird follows), a link with \<^verbatim>\<open>bbPouchyDestroy\<close> calls
  \<^verbatim>\<open>this.db.destroy\<close>.  An emitter that does not emit \<^verbatim>\<open>complete\<close> inside \<^verbatim>\<open>cancel()\<close> queues
  a job of its own there: \<open>EmitterJob n\<close> emits after being put back \<open>n\<close> times.
\<close>

datatype job = Drain | EmitterJob nat

fun run_then_arg :: "then_arg \<Rightarrow> event list" where
  "run_then_arg NotAFunction = []"
| "run_then_arg BbPouchyDestroy = [DbDestroy]"

text \<open>What \<^verbatim>\<open>cancel()\<close> emits before it returns, and what it queues.\<close>

fun cancel_emits :: "nat option \<Rightarrow> event list" where
  "cancel_emits (Some 0) = [CompleteEmitted]"
| "cancel_emits other = []"

fun cancel_queues :: "nat option \<Rightarrow> job list" where
  "cancel_queues (Some (Suc n)) = [EmitterJob n]"
| "cancel_queues other = []"

text \<open>The queue when \<^verbatim>\<open>destroy\<close> returns.  With a live replication
  \<^verbatim>\<open>chain.then(isCompleteP)\<close> comes before \<^verbatim>\<open>this.syncEmitter.cancel()\<close>, so the drain is queued
  first; otherwise the first \<^verbatim>\<open>.then\<close> is the one with \<^verbatim>\<open>bbPouchyDestroy\<close>, after
  \<^verbatim>\<open>cancel()\<close>.\<close>

definition destroy_jobs :: "pouchy \<Rightarrow> job list" where
  "destroy_jobs p =
     (case syncEmitter p of
        None \<Rightarrow> [Drain]
      | Some e \<Rightarrow>
          if truthy (replicationOpts p) \<and> truthy (member (replicationOpts p) ''live'')
          then Drain # cancel_queues (complete_after e)
          else cancel_queues (complete_after e) @ [Drain])"

function event_loop :: "job list \<Rightarrow> then_arg list \<Rightarrow> event list" where
  "event_loop [] chain = []"
| "event_loop (Drain # q) chain = concat (map run_then_arg chain) @ event_loop q chain"
| "event_loop (EmitterJob 0 # q) chain = CompleteEmitted # event_loop q chain"
| "event_loop (EmitterJob (Suc n) # q) chain = event_loop (q @ [EmitterJob n]) chain"
  by pat_completeness auto
termination
  by (relation "measure (\<lambda>(q, chain). sum_list (map (\<lambda>j. case j of Drain \<Rightarrow> 1 | EmitterJob n \<Rightarrow> Suc (Suc n)) q))")
    auto

definition destroy :: "pouchy \<Rightarrow> event list" where
  "destroy p =
     (case destroy_sync p of
        (evs, chain) \<Rightarrow>
          evs @ (case syncEmitter p of None \<Rightarrow> [] | Some e \<Rightarrow> cancel_emits (complete_after e))
              @ event_loop (destroy_jobs p) chain)"

section \<open>Properties of objects\<close>

lemma get_prop_set_prop: "get_prop (set_prop d k v) k' = (if k' = k then v else get_prop d k')"
  by (simp add: get_prop_def set_prop_def update_conv')

lemma hasOwnProperty_set_prop:
  "hasOwnProperty (set_prop d k v) k' = (k' = k \<or> hasOwnProperty d k')"
  by (simp add: hasOwnProperty_def set_prop_def update_conv')

lemma get_prop_delete_prop:
  "get_prop (delete_prop d k) k' = (if k' = k then JUndefined else get_prop d k')"
  by (simp add: get_prop_def delete_prop_def delete_conv')

lemma hasOwnProperty_delete_prop:
  "hasOwnProperty (delete_prop d k) k' = (k' \<noteq> k \<and> hasOwnProperty d k')"
  by (simp add: hasOwnProperty_def delete_prop_def delete_conv')



section \<open>save: which write is issued\<close>

text \<open>
  Claim C2, as the specification states it: a document that carries an identifier field,
  also a falsy one such as the empty string or zero, is written with \<^verbatim>\<open>put\<close>.  The source
  tests \<^verbatim>\<open>doc._id || doc._id === 0\<close> after \<^verbatim>\<open>hasOwnProperty\<close>, so zero is the only falsy
  identifier that is put.  A document whose \<^verbatim>\<open>_id\<close> is the empty string has the field and
  is posted.
\<close>

theorem save_empty_string_id_is_posted:
  "hasOwnProperty [(''_id'', JStr '''')] ''_id'' \<and>
   fst (save (\<lambda>c. Inr (JObj [(''id'', JStr ''k1''), (''rev'', JStr ''1-a'')]))
          (\<lambda>a. [(''_id'', JStr '''')]) 0)
     = [Post [(''_id'', JStr '''')]]"
  by (simp add: save_def save_method_def hasOwnProperty_def get_prop_def tidySaveResults_def)

text \<open>
  Claim C2, amended.  A document that has a property named \<^verbatim>\<open>hasOwnProperty\<close> of its own
  makes \<^verbatim>\<open>save\<close> throw a TypeError: the backend is not called and nothing is written.  For
  every other document \<^verbatim>\<open>save\<close> issues exactly one backend write.  It is a \<^verbatim>\<open>put\<close> of the
  document when the document has an own \<^verbatim>\<open>_id\<close> that is truthy or is the number zero.  It
  is a \<^verbatim>\<open>post\<close> of the document when it has no own \<^verbatim>\<open>_id\<close>, or its \<^verbatim>\<open>_id\<close> is undefined,
  null, false, NaN or the empty string.
\<close>

theorem save_put_or_post:
  "(hasOwnProperty (h a) ''hasOwnProperty'' \<longrightarrow> save db h a = ([], h, Throws TypeError)) \<and>
   (\<not> hasOwnProperty (h a) ''hasOwnProperty'' \<and> hasOwnProperty (h a) ''_id'' \<and>
      (truthy (get_prop (h a) ''_id'') \<or> get_prop (h a) ''_id'' = JNum 0)
      \<longrightarrow> fst (save db h a) = [Put (h a)]) \<and>
   (\<not> hasOwnProperty (h a) ''hasOwnProperty'' \<and>
      (\<not> hasOwnProperty (h a) ''_id'' \<or>
       get_prop (h a) ''_id'' \<in> {JUndefined, JNull, JBool False, JNaN, JStr ''''})
      \<longrightarrow> fst (save db h a) = [Post (h a)])"
proof -
  have throws: "save db h a = ([], h, Throws TypeError)"
    if "hasOwnProperty (h a) ''hasOwnProperty''"
    using that by (simp add: save_def save_method_def)
  have calls: "fst (save db h a) =
      [(if hasOwnProperty (h a) ''_id'' \<and>
           (truthy (get_prop (h a) ''_id'') \<or> get_prop (h a) ''_id'' = JNum 0)
        then Put else Post) (h a)]"
    if "\<not> hasOwnProperty (h a) ''hasOwnProperty''"
    using that by (simp add: save_def save_method_def Let_def split: sum.splits prod.splits)
  show ?thesis
    using throws calls by auto
qed

theorem save_put_or_post_witness:
  "hasOwnProperty [(''_id'', JNum 0)] ''_id'' \<and>
   get_prop [(''_id'', JNum 0)] ''_id'' = JNum 0 \<and>
   fst (save (\<lambda>c. Inl JNull) (\<lambda>a. [(''_id'', JNum 0)]) 0) = [Put [(''_id'', JNum 0)]] \<and>
   \<not> hasOwnProperty [(''peanut'', JStr ''butter'')] ''_id'' \<and>
   fst (save (\<lambda>c. Inl JNull) (\<lambda>a. [(''peanut'', JStr ''butter'')]) 0)
     = [Post [(''peanut'', JStr ''butter'')]] \<and>
   fst (save (\<lambda>c. Inl JNull) (\<lambda>a. [(''hasOwnProperty'', JNum 1), (''_id'', JStr ''x'')]) 0) = []"
  using save_put_or_post [of "\<lambda>a. [(''_id'', JNum 0)]" 0 "\<lambda>c. Inl JNull"]
        save_put_or_post [of "\<lambda>a. [(''peanut'', JStr ''butter'')]" 0 "\<lambda>c. Inl JNull"]
        save_put_or_post [of "\<lambda>a. [(''hasOwnProperty'', JNum 1), (''_id'', JStr ''x'')]" 0
          "\<lambda>c. Inl JNull"]
  by (simp add: hasOwnProperty_def get_prop_def)

section \<open>save and update: the caller's object\<close>







section \<open>bulkGet: the empty batch\<close>

text \<open>
  Claim C6: \<^verbatim>\<open>bulkGet\<close> on an empty array, or on an options object whose \<^verbatim>\<open>docs\<close> is an
  empty array, is fulfilled with the empty array, makes no backend call and leaves the
  heap as it was, whatever the backend.
\<close>

theorem bulkGet_empty:
  "bulkGet db h (DocsArray []) = ([], h, Fulfilled []) \<and>
   bulkGet db h (OptsObject (Some [])) = ([], h, Fulfilled [])"
  by (simp add: bulkGet_def bulkGet_docs_def)

text \<open>\<^verbatim>\<open>bulkGet\<close> without options, or with options whose \<^verbatim>\<open>docs\<close> is not an array, throws
  before any entry is touched and before the backend is called.\<close>

theorem bulkGet_bad_input_throws:
  "bulkGet db h NoOpts = ([], h, Throws (Error ''missing bulkGet opts'')) \<and>
   bulkGet db h (OptsObject None) =
     ([], h, Throws (Error ''bulkGet requires array of doc filters. please see couchdb bulkGet''))"
  by (simp add: bulkGet_def)

section \<open>bulkGet: the caller's entries\<close>

lemma remapIdRev_no_underscore:
  "\<not> hasOwnProperty (remapIdRev d) ''_id''" "\<not> hasOwnProperty (remapIdRev d) ''_rev''"
  by (simp_all add: remapIdRev_def Let_def hasOwnProperty_delete_prop)

lemma not_own_undefined: "\<not> hasOwnProperty d k \<Longrightarrow> get_prop d k = JUndefined"
  by (simp add: hasOwnProperty_def get_prop_def)

lemma delete_prop_absent: "\<not> hasOwnProperty d k \<Longrightarrow> delete_prop d k = d"
proof -
  assume "\<not> hasOwnProperty d k"
  then have "k \<notin> fst ` set d"
    by (simp add: hasOwnProperty_def map_of_eq_None_iff)
  then show ?thesis by (simp add: delete_prop_def)
qed

lemma remapIdRev_idem: "remapIdRev (remapIdRev d) = remapIdRev d"
proof -
  let ?e = "remapIdRev d"
  have a: "get_prop ?e ''_id'' = JUndefined" "get_prop ?e ''_rev'' = JUndefined"
    by (simp_all add: not_own_undefined remapIdRev_no_underscore)
  have "remapIdRev ?e = delete_prop (delete_prop ?e ''_rev'') ''_id''"
    using a by (simp add: remapIdRev_def [of ?e] Let_def)
  then show ?thesis
    by (simp add: delete_prop_absent remapIdRev_no_underscore)
qed

lemma remap_docs_apply:
  "remap_docs h docs a = (if a \<in> set docs then remapIdRev (h a) else h a)"
proof (induction docs arbitrary: h)
  case Nil
  then show ?case by simp
next
  case (Cons b docs)
  then show ?case by (simp add: remapIdRev_idem)
qed

lemma remapIdRev_id:
  "get_prop (remapIdRev d) ''id'' = (if truthy (get_prop d ''_id'') then get_prop d ''_id'' else get_prop d ''id'')"
  "hasOwnProperty (remapIdRev d) ''id'' = (truthy (get_prop d ''_id'') \<or> hasOwnProperty d ''id'')"
  by (simp_all add: remapIdRev_def Let_def get_prop_delete_prop get_prop_set_prop
        hasOwnProperty_delete_prop hasOwnProperty_set_prop)

lemma remapIdRev_rev:
  "get_prop (remapIdRev d) ''rev'' = (if truthy (get_prop d ''_rev'') then get_prop d ''_rev'' else get_prop d ''rev'')"
  "hasOwnProperty (remapIdRev d) ''rev'' = (truthy (get_prop d ''_rev'') \<or> hasOwnProperty d ''rev'')"
  by (simp_all add: remapIdRev_def Let_def get_prop_delete_prop get_prop_set_prop
        hasOwnProperty_delete_prop hasOwnProperty_set_prop)

lemma remapIdRev_other:
  "k \<notin> {''_id'', ''_rev'', ''id'', ''rev''} \<Longrightarrow>
     get_prop (remapIdRev d) k = get_prop d k \<and> hasOwnProperty (remapIdRev d) k = hasOwnProperty d k"
  by (simp add: remapIdRev_def Let_def get_prop_delete_prop get_prop_set_prop
        hasOwnProperty_delete_prop hasOwnProperty_set_prop)

lemma remapIdRev_fields:
  "\<not> hasOwnProperty (remapIdRev d) ''_id'' \<and> \<not> hasOwnProperty (remapIdRev d) ''_rev'' \<and>
   get_prop (remapIdRev d) ''id'' =
     (if truthy (get_prop d ''_id'') then get_prop d ''_id'' else get_prop d ''id'') \<and>
   hasOwnProperty (remapIdRev d) ''id'' = (truthy (get_prop d ''_id'') \<or> hasOwnProperty d ''id'') \<and>
   get_prop (remapIdRev d) ''rev'' =
     (if truthy (get_prop d ''_rev'') then get_prop d ''_rev'' else get_prop d ''rev'') \<and>
   hasOwnProperty (remapIdRev d) ''rev'' = (truthy (get_prop d ''_rev'') \<or> hasOwnProperty d ''rev'') \<and>
   (\<forall>k. k \<notin> {''_id'', ''_rev'', ''id'', ''rev''} \<longrightarrow>
        get_prop (remapIdRev d) k = get_prop d k \<and>
        hasOwnProperty (remapIdRev d) k = hasOwnProperty d k)"
proof (intro conjI allI impI)
  fix k :: string
  assume k: "k \<notin> {''_id'', ''_rev'', ''id'', ''rev''}"
  show "get_prop (remapIdRev d) k = get_prop d k"
    using remapIdRev_other [OF k] by (rule conjunct1)
  show "hasOwnProperty (remapIdRev d) k = hasOwnProperty d k"
    using remapIdRev_other [OF k] by (rule conjunct2)
qed (rule remapIdRev_no_underscore remapIdRev_id remapIdRev_rev)+

text \<open>
  Claim C9: on a non-empty array of entries (given as such or as the \<^verbatim>\<open>docs\<close> of an options
  object) \<^verbatim>\<open>bulkGet\<close> makes one backend call, and that call already sees the rewritten
  entries: the heap \<open>h'\<close> it is made with is the heap the method ends with.  In \<open>h'\<close> every
  entry has lost \<^verbatim>\<open>_id\<close> and \<^verbatim>\<open>_rev\<close>; its \<^verbatim>\<open>id\<close> is the old \<^verbatim>\<open>_id\<close> when that was truthy
  and is otherwise as before (absent if it was absent), and likewise \<^verbatim>\<open>rev\<close>; its other
  properties are as before; and objects that are not entries are not written.
\<close>

theorem bulkGet_rewrites_entries:
  assumes "docs \<noteq> []" and "opts = DocsArray docs \<or> opts = OptsObject (Some docs)"
  shows "\<exists>h' r. bulkGet db h opts = ([BulkGet (map h' docs)], h', r) \<and>
           (\<forall>a\<in>set docs.
              \<not> hasOwnProperty (h' a) ''_id'' \<and> \<not> hasOwnProperty (h' a) ''_rev'' \<and>
              get_prop (h' a) ''id'' =
                (if truthy (get_prop (h a) ''_id'') then get_prop (h a) ''_id'' else get_prop (h a) ''id'') \<and>
              hasOwnProperty (h' a) ''id'' =
                (truthy (get_prop (h a) ''_id'') \<or> hasOwnProperty (h a) ''id'') \<and>
              get_prop (h' a) ''rev'' =
                (if truthy (get_prop (h a) ''_rev'') then get_prop (h a) ''_rev'' else get_prop (h a) ''rev'') \<and>
              hasOwnProperty (h' a) ''rev'' =
                (truthy (get_prop (h a) ''_rev'') \<or> hasOwnProperty (h a) ''rev'') \<and>
              (\<forall>k. k \<notin> {''_id'', ''_rev'', ''id'', ''rev''} \<longrightarrow>
                   get_prop (h' a) k = get_prop (h a) k \<and>
                   hasOwnProperty (h' a) k = hasOwnProperty (h a) k)) \<and>
           (\<forall>b. b \<notin> set docs \<longrightarrow> h' b = h b)"
proof (intro exI conjI ballI allI impI)
  show "bulkGet db h opts =
      ([BulkGet (map (remap_docs h docs) docs)], remap_docs h docs,
       snd (snd (bulkGet_docs db h docs)))"
    using assms by (auto simp: bulkGet_def bulkGet_docs_def Let_def split: sum.splits)
next
  fix b assume "b \<notin> set docs"
  then show "remap_docs h docs b = h b" by (simp add: remap_docs_apply)
qed (simp_all add: remap_docs_apply remapIdRev_fields)

theorem bulkGet_rewrites_entries_witness:
  "fst (bulkGet (\<lambda>c. Inl JNull)
          (\<lambda>a. if a = 0 then [(''_id'', JStr ''a''), (''_rev'', JStr ''1-x'')]
               else [(''_id'', JStr ''''), (''id'', JStr ''b'')])
          (DocsArray [0, 1]))
     = [BulkGet [[(''id'', JStr ''a''), (''rev'', JStr ''1-x'')], [(''id'', JStr ''b'')]]] \<and>
   fst (snd (bulkGet (\<lambda>c. Inl JNull)
          (\<lambda>a. if a = 0 then [(''_id'', JStr ''a''), (''_rev'', JStr ''1-x'')]
               else [(''_id'', JStr ''''), (''id'', JStr ''b'')])
          (DocsArray [0, 1]))) 1
     = [(''id'', JStr ''b'')]"
  using bulkGet_rewrites_entries [of "[0, 1]" "DocsArray [0, 1]" "\<lambda>c. Inl JNull"
     "\<lambda>a. if a = 0 then [(''_id'', JStr ''a''), (''_rev'', JStr ''1-x'')]
          else [(''_id'', JStr ''''), (''id'', JStr ''b'')]"]
  by (simp add: bulkGet_def bulkGet_docs_def remapIdRev_def get_prop_def set_prop_def delete_prop_def)

section \<open>bulkGet: all or nothing\<close>

lemma tidyBulkGetDocs_single_entry:
  assumes "g = JObj ps" and "\<not> hasOwnProperty ps ''docs[0].ok''"
    and "get_prop ps ''docs'' = JArr [e]"
  shows "tidyBulkGetDocs g =
           (if truthy (member e ''ok'') then Inr (member e ''ok'')
            else Inl (ReferenceError (member g ''id'')))"
  using assms by (simp add: tidyBulkGetDocs_def get_docs0_ok_def Let_def)

lemma map_tidyBulkGetDocs_all_found:
  assumes "list_all2 (\<lambda>g e. \<exists>ps. g = JObj ps \<and> \<not> hasOwnProperty ps ''docs[0].ok'' \<and>
              get_prop ps ''docs'' = JArr [e]) gs es"
  shows "\<forall>e\<in>set es. truthy (member e ''ok'') \<Longrightarrow>
           map_tidyBulkGetDocs gs = Inr (map (\<lambda>e. member e ''ok'') es)"
  using assms
proof (induction gs es rule: list_all2_induct)
  case Nil
  then show ?case by simp
next
  case (Cons g gs e es)
  from Cons.hyps(1) obtain ps where "g = JObj ps" "\<not> hasOwnProperty ps ''docs[0].ok''"
    "get_prop ps ''docs'' = JArr [e]"
    by blast
  from tidyBulkGetDocs_single_entry [OF this] Cons.prems
  have "tidyBulkGetDocs g = Inr (member e ''ok'')" by simp
  moreover from Cons.IH Cons.prems
  have "map_tidyBulkGetDocs gs = Inr (map (\<lambda>e. member e ''ok'') es)" by simp
  ultimately show ?case by simp
qed

lemma map_tidyBulkGetDocs_first_missing:
  assumes "list_all2 (\<lambda>g e. \<exists>ps. g = JObj ps \<and> \<not> hasOwnProperty ps ''docs[0].ok'' \<and>
              get_prop ps ''docs'' = JArr [e]) gs es"
  shows "\<exists>e\<in>set es. \<not> truthy (member e ''ok'') \<Longrightarrow>
           \<exists>i<length gs. \<not> truthy (member (es ! i) ''ok'') \<and>
              (\<forall>j<i. truthy (member (es ! j) ''ok'')) \<and>
              map_tidyBulkGetDocs gs = Inl (ReferenceError (member (gs ! i) ''id''))"
  using assms
proof (induction gs es rule: list_all2_induct)
  case Nil
  then show ?case by simp
next
  case (Cons g gs e es)
  from Cons.hyps(1) obtain ps where "g = JObj ps" "\<not> hasOwnProperty ps ''docs[0].ok''"
    "get_prop ps ''docs'' = JArr [e]"
    by blast
  note head = tidyBulkGetDocs_single_entry [OF this]
  show ?case
  proof (cases "truthy (member e ''ok'')")
    case False
    with head have "map_tidyBulkGetDocs (g # gs) = Inl (ReferenceError (member g ''id''))"
      by simp
    with False have "0 < length (g # gs) \<and> \<not> truthy (member ((e # es) ! 0) ''ok'') \<and>
        (\<forall>j<0. truthy (member ((e # es) ! j) ''ok'')) \<and>
        map_tidyBulkGetDocs (g # gs) = Inl (ReferenceError (member ((g # gs) ! 0) ''id''))"
      by simp
    then show ?thesis by blast
  next
    case True
    with Cons.prems have "\<exists>e\<in>set es. \<not> truthy (member e ''ok'')" by auto
    from Cons.IH [OF this] obtain i where i: "i < length gs"
      "\<not> truthy (member (es ! i) ''ok'')" "\<forall>j<i. truthy (member (es ! j) ''ok'')"
      "map_tidyBulkGetDocs gs = Inl (ReferenceError (member (gs ! i) ''id''))"
      by blast
    have before: "\<forall>j<Suc i. truthy (member ((e # es) ! j) ''ok'')"
    proof (intro allI impI)
      fix j assume "j < Suc i"
      then show "truthy (member ((e # es) ! j) ''ok'')"
        using True i(3) by (cases j) simp_all
    qed
    have "map_tidyBulkGetDocs (g # gs) = Inl (ReferenceError (member ((g # gs) ! Suc i) ''id''))"
      using head True i(4) by simp
    with i(1,2) before
    have "Suc i < length (g # gs) \<and> \<not> truthy (member ((e # es) ! Suc i) ''ok'') \<and>
        (\<forall>j<Suc i. truthy (member ((e # es) ! j) ''ok'')) \<and>
        map_tidyBulkGetDocs (g # gs) = Inl (ReferenceError (member ((g # gs) ! Suc i) ''id''))"
      by simp
    then show ?thesis by blast
  qed
qed

text \<open>
  Claim C4: a non-empty batch is sent to the backend, whose reply holds one group per
  requested entry, in order and under the entry's identifier, each group an object with
  exactly one result in \<^verbatim>\<open>docs\<close> (and no property literally named \<^verbatim>\<open>docs[0].ok\<close>).  A
  result is successful when its \<^verbatim>\<open>ok\<close> is truthy.  If every requested entry has a
  successful result, the call is fulfilled with the array of those \<^verbatim>\<open>ok\<close> values, one per
  requested entry, in order.  If some requested entry has none, the call is rejected with
  \<^verbatim>\<open>ReferenceError('doc ' + id + 'not found')\<close>, where \<^verbatim>\<open>id\<close> is the identifier of the first
  such entry, and no array is returned.
\<close>

theorem bulkGet_all_or_nothing:
  assumes "docs \<noteq> []" and "opts = DocsArray docs \<or> opts = OptsObject (Some docs)"
    and "db (BulkGet (map (remap_docs h docs) docs)) = Inr r"
    and "\<not> nullish r" and "member r ''results'' = JArr gs"
    and "list_all2 (\<lambda>a g. member g ''id'' = get_prop (remap_docs h docs a) ''id'') docs gs"
    and "list_all2 (\<lambda>g e. \<exists>ps. g = JObj ps \<and> \<not> hasOwnProperty ps ''docs[0].ok'' \<and>
              get_prop ps ''docs'' = JArr [e]) gs es"
  shows "((\<forall>e\<in>set es. truthy (member e ''ok'')) \<longrightarrow>
            snd (snd (bulkGet db h opts)) = Fulfilled (map (\<lambda>e. member e ''ok'') es) \<and>
            length es = length docs) \<and>
         ((\<exists>e\<in>set es. \<not> truthy (member e ''ok'')) \<longrightarrow>
            (\<exists>i<length docs.
                \<not> truthy (member (es ! i) ''ok'') \<and>
                (\<forall>j<i. truthy (member (es ! j) ''ok'')) \<and>
                snd (snd (bulkGet db h opts)) =
                  Rejected (ReferenceError (get_prop (remap_docs h docs (docs ! i)) ''id''))))"
proof -
  have run: "snd (snd (bulkGet db h opts)) = mapBulkGetResultsToRoot r"
    using assms(1,2,3) by (auto simp: bulkGet_def bulkGet_docs_def Let_def)
  have root: "mapBulkGetResultsToRoot r =
      (case map_tidyBulkGetDocs gs of Inl e \<Rightarrow> Rejected e | Inr ds \<Rightarrow> Fulfilled ds)"
    using assms(4,5) by (simp add: mapBulkGetResultsToRoot_def)
  have len: "length docs = length gs" "length gs = length es"
    using assms(6,7) by (simp_all add: list_all2_lengthD)
  have ids: "member (gs ! i) ''id'' = get_prop (remap_docs h docs (docs ! i)) ''id''"
    if "i < length gs" for i
    using assms(6) that len(1) by (simp add: list_all2_conv_all_nth)
  have found: "snd (snd (bulkGet db h opts)) = Fulfilled (map (\<lambda>e. member e ''ok'') es) \<and>
      length es = length docs"
    if "\<forall>e\<in>set es. truthy (member e ''ok'')"
    using map_tidyBulkGetDocs_all_found [OF assms(7) that] len by (simp add: run root)
  have missing: "\<exists>i<length docs.
      \<not> truthy (member (es ! i) ''ok'') \<and>
      (\<forall>j<i. truthy (member (es ! j) ''ok'')) \<and>
      snd (snd (bulkGet db h opts)) =
        Rejected (ReferenceError (get_prop (remap_docs h docs (docs ! i)) ''id''))"
    if "\<exists>e\<in>set es. \<not> truthy (member e ''ok'')"
  proof -
    from map_tidyBulkGetDocs_first_missing [OF assms(7) that]
    obtain i where i: "i < length gs" "\<not> truthy (member (es ! i) ''ok'')"
      "\<forall>j<i. truthy (member (es ! j) ''ok'')"
      "map_tidyBulkGetDocs gs = Inl (ReferenceError (member (gs ! i) ''id''))"
      by blast
    have "snd (snd (bulkGet db h opts)) =
        Rejected (ReferenceError (get_prop (remap_docs h docs (docs ! i)) ''id''))"
      using i(4) ids [OF i(1)] by (simp add: run root)
    with i(1,2,3) len(1) show ?thesis by auto
  qed
  show ?thesis
    using found missing by blast
qed

theorem bulkGet_all_or_nothing_witness:
  "snd (snd (bulkGet
      (\<lambda>c. Inr (JObj [(''results'', JArr
          [JObj [(''id'', JStr ''a''), (''docs'', JArr [JObj [(''ok'', JObj [(''_id'', JStr ''a'')])]])],
           JObj [(''id'', JStr ''b''), (''docs'', JArr [JObj [(''ok'', JObj [(''_id'', JStr ''b'')])]])]])]))
      (\<lambda>a. if a = 0 then [(''_id'', JStr ''a'')] else [(''_id'', JStr ''b'')])
      (DocsArray [0, 1])))
     = Fulfilled [JObj [(''_id'', JStr ''a'')], JObj [(''_id'', JStr ''b'')]] \<and>
   snd (snd (bulkGet
      (\<lambda>c. Inr (JObj [(''results'', JArr
          [JObj [(''id'', JStr ''a''), (''docs'', JArr [JObj [(''ok'', JObj [(''_id'', JStr ''a'')])]])],
           JObj [(''id'', JStr ''b''), (''docs'', JArr [JObj [(''error'', JObj [(''error'', JStr ''not_found'')])]])]])]))
      (\<lambda>a. if a = 0 then [(''_id'', JStr ''a'')] else [(''_id'', JStr ''b'')])
      (DocsArray [0, 1])))
     = Rejected (ReferenceError (JStr ''b''))"
  using bulkGet_all_or_nothing [of "[0, 1]" "DocsArray [0, 1]"
      "\<lambda>c. Inr (JObj [(''results'', JArr
          [JObj [(''id'', JStr ''a''), (''docs'', JArr [JObj [(''ok'', JObj [(''_id'', JStr ''a'')])]])],
           JObj [(''id'', JStr ''b''), (''docs'', JArr [JObj [(''ok'', JObj [(''_id'', JStr ''b'')])]])]])])"
      "\<lambda>a. if a = 0 then [(''_id'', JStr ''a'')] else [(''_id'', JStr ''b'')]"
      "JObj [(''results'', JArr
          [JObj [(''id'', JStr ''a''), (''docs'', JArr [JObj [(''ok'', JObj [(''_id'', JStr ''a'')])]])],
           JObj [(''id'', JStr ''b''), (''docs'', JArr [JObj [(''ok'', JObj [(''_id'', JStr ''b'')])]])]])]"
      "[JObj [(''id'', JStr ''a''), (''docs'', JArr [JObj [(''ok'', JObj [(''_id'', JStr ''a'')])]])],
        JObj [(''id'', JStr ''b''), (''docs'', JArr [JObj [(''ok'', JObj [(''_id'', JStr ''b'')])]])]]"
      "[JObj [(''ok'', JObj [(''_id'', JStr ''a'')])], JObj [(''ok'', JObj [(''_id'', JStr ''b'')])]]"]
    bulkGet_all_or_nothing [of "[0, 1]" "DocsArray [0, 1]"
      "\<lambda>c. Inr (JObj [(''results'', JArr
          [JObj [(''id'', JStr ''a''), (''docs'', JArr [JObj [(''ok'', JObj [(''_id'', JStr ''a'')])]])],
           JObj [(''id'', JStr ''b''), (''docs'', JArr [JObj [(''error'', JObj [(''error'', JStr ''not_found'')])]])]])])"
      "\<lambda>a. if a = 0 then [(''_id'', JStr ''a'')] else [(''_id'', JStr ''b'')]"
      "JObj [(''results'', JArr
          [JObj [(''id'', JStr ''a''), (''docs'', JArr [JObj [(''ok'', JObj [(''_id'', JStr ''a'')])]])],
           JObj [(''id'', JStr ''b''), (''docs'', JArr [JObj [(''error'', JObj [(''error'', JStr ''not_found'')])]])]])]"
      "[JObj [(''id'', JStr ''a''), (''docs'', JArr [JObj [(''ok'', JObj [(''_id'', JStr ''a'')])]])],
        JObj [(''id'', JStr ''b''), (''docs'', JArr [JObj [(''error'', JObj [(''error'', JStr ''not_found'')])]])]]"
      "[JObj [(''ok'', JObj [(''_id'', JStr ''a'')])],
        JObj [(''error'', JObj [(''error'', JStr ''not_found'')])]]"]
  by (simp add: bulkGet_def bulkGet_docs_def mapBulkGetResultsToRoot_def tidyBulkGetDocs_def
        get_docs0_ok_def get_prop_def hasOwnProperty_def)

section \<open>createIndicies: one call, conflicts swallowed\<close>

lemma set_unique_from: "set (unique_from res xs) = set res \<union> set xs"
  by (induction xs arbitrary: res) auto

lemma distinct_unique_from: "distinct res \<Longrightarrow> distinct (unique_from res xs)"
  by (induction xs arbitrary: res) auto

lemma unique_dedup: "distinct (unique xs) \<and> set (unique xs) = set xs"
  by (simp add: unique_def set_unique_from distinct_unique_from)

text \<open>
  Claim C5: \<^verbatim>\<open>createIndicies\<close>, given one name or an array of names, makes exactly one
  backend call, \<^verbatim>\<open>createIndex\<close> over the names without repetitions.  If the backend rejects
  with an error whose \<^verbatim>\<open>status\<close> is 409 the call is fulfilled (with undefined); if it
  rejects with anything else the call is rejected, with that very error (a rejection with
  null or undefined makes the handler's own read of \<^verbatim>\<open>err.status\<close> throw a TypeError
  instead); if it fulfils, the call is fulfilled with the backend's value.  So a first call
  the backend fulfils and a second call it either fulfils or rejects with status 409 are
  both fulfilled.
\<close>

theorem createIndicies_swallows_conflict:
  assumes "names = (case ix of Array xs \<Rightarrow> xs | Single x \<Rightarrow> [x])"
  shows "\<exists>fs. fst (createIndicies db ix) = [CreateIndex fs] \<and> distinct fs \<and> set fs = set names \<and>
           (\<forall>err. db (CreateIndex fs) = Inl err \<and> member err ''status'' = JNum 409 \<longrightarrow>
                  snd (createIndicies db ix) = Fulfilled JUndefined) \<and>
           (\<forall>err. db (CreateIndex fs) = Inl err \<and> member err ''status'' \<noteq> JNum 409 \<longrightarrow>
                  snd (createIndicies db ix) = Rejected (if nullish err then TypeError else Reason err)) \<and>
           (\<forall>v. db (CreateIndex fs) = Inr v \<longrightarrow> snd (createIndicies db ix) = Fulfilled v) \<and>
           (\<forall>db2. (\<exists>v. db (CreateIndex fs) = Inr v) \<and>
                  ((\<exists>v2. db2 (CreateIndex fs) = Inr v2) \<or>
                   (\<exists>err. db2 (CreateIndex fs) = Inl err \<and> member err ''status'' = JNum 409)) \<longrightarrow>
                  (\<exists>v. snd (createIndicies db ix) = Fulfilled v) \<and>
                  (\<exists>v. snd (createIndicies db2 ix) = Fulfilled v))"
proof -
  let ?fs = "unique names"
  have calls: "fst (createIndicies d ix) = [CreateIndex ?fs]" for d
    by (simp add: createIndicies_def Let_def assms split: sum.splits)
  have conflict: "snd (createIndicies d ix) = Fulfilled JUndefined"
    if "d (CreateIndex ?fs) = Inl err" "member err ''status'' = JNum 409" for d err
  proof -
    from that(2) have "\<not> nullish err" by (cases err) simp_all
    with that show ?thesis
      by (simp add: createIndicies_def Let_def assms handleFailCreateIndicies_def)
  qed
  have other: "snd (createIndicies d ix) = Rejected (if nullish err then TypeError else Reason err)"
    if "d (CreateIndex ?fs) = Inl err" "member err ''status'' \<noteq> JNum 409" for d err
    using that by (simp add: createIndicies_def Let_def assms handleFailCreateIndicies_def)
  have fine: "snd (createIndicies d ix) = Fulfilled v" if "d (CreateIndex ?fs) = Inr v" for d v
    using that by (simp add: createIndicies_def Let_def assms)
  have twice: "(\<exists>v. snd (createIndicies db ix) = Fulfilled v) \<and>
               (\<exists>v. snd (createIndicies db2 ix) = Fulfilled v)"
    if "\<exists>v. db (CreateIndex ?fs) = Inr v"
       "(\<exists>v2. db2 (CreateIndex ?fs) = Inr v2) \<or>
        (\<exists>err. db2 (CreateIndex ?fs) = Inl err \<and> member err ''status'' = JNum 409)" for db2
    using that fine conflict by blast
  show ?thesis
    using calls [of db] unique_dedup [of names] conflict [of db] other [of db] fine [of db] twice
    by blast
qed

theorem createIndicies_swallows_conflict_witness:
  "createIndicies (\<lambda>c. Inl (JObj [(''status'', JNum 409), (''name'', JStr ''conflict'')]))
       (Array [''a'', ''b'', ''a''])
     = ([CreateIndex [''a'', ''b'']], Fulfilled JUndefined) \<and>
   createIndicies (\<lambda>c. Inl (JObj [(''status'', JNum 500)])) (Single ''a'')
     = ([CreateIndex [''a'']], Rejected (Reason (JObj [(''status'', JNum 500)]))) \<and>
   createIndicies (\<lambda>c. Inr (JObj [(''result'', JStr ''created'')])) (Single ''a'')
     = ([CreateIndex [''a'']], Fulfilled (JObj [(''result'', JStr ''created'')]))"
  using createIndicies_swallows_conflict [of "[''a'', ''b'', ''a'']" "Array [''a'', ''b'', ''a'']"
          "\<lambda>c. Inl (JObj [(''status'', JNum 409), (''name'', JStr ''conflict'')])"]
        createIndicies_swallows_conflict [of "[''a'']" "Single ''a''"
          "\<lambda>c. Inl (JObj [(''status'', JNum 500)])"]
        createIndicies_swallows_conflict [of "[''a'']" "Single ''a''"
          "\<lambda>c. Inr (JObj [(''result'', JStr ''created'')])"]
  by (simp add: createIndicies_def unique_def handleFailCreateIndicies_def get_prop_def)

section \<open>all: rows without documents\<close>

lemma update_absent: "k \<notin> fst ` set al \<Longrightarrow> AList.update k v al = al @ [(k, v)]"
  by (induction al) auto

lemma set_prop_absent: "\<not> hasOwnProperty d k \<Longrightarrow> set_prop d k v = d @ [(k, v)]"
  by (simp add: set_prop_def hasOwnProperty_def map_of_eq_None_iff update_absent)

lemma delete_prop_append: "delete_prop (d @ e) k = delete_prop d k @ delete_prop e k"
  by (simp add: delete_prop_def AList.delete_eq)

lemma stub_wrappers_stripped:
  "fst ` set v \<subseteq> {''id'', ''key'', ''value''} \<Longrightarrow>
     delete_prop (delete_prop (delete_prop v ''id'') ''value'') ''key'' = []"
  by (induction v) (auto simp: delete_prop_def)

lemma rework_row_stub:
  assumes keys: "fst ` set v \<subseteq> {''id'', ''key'', ''value''}"
    and val: "\<not> nullish (get_prop v ''value'')"
  shows "rework_row (JObj v) =
           Inr (JObj [(''_id'', get_prop v ''id''), (''_rev'', member (get_prop v ''value'') ''rev'')])"
proof -
  let ?x = "get_prop v ''id''" and ?y = "member (get_prop v ''value'') ''rev''"
  have no_id: "\<not> hasOwnProperty v ''_id''" and no_rev: "\<not> hasOwnProperty v ''_rev''"
    using keys by (auto simp: hasOwnProperty_def map_of_eq_None_iff)
  have d1: "set_prop v ''_id'' ?x = v @ [(''_id'', ?x)]"
    using no_id by (rule set_prop_absent)
  have "\<not> hasOwnProperty (v @ [(''_id'', ?x)]) ''_rev''"
    using no_rev by (simp add: hasOwnProperty_def)
  then have d2: "set_prop (v @ [(''_id'', ?x)]) ''_rev'' ?y = v @ [(''_id'', ?x), (''_rev'', ?y)]"
    by (simp add: set_prop_absent)
  have value1: "get_prop (v @ [(''_id'', ?x)]) ''value'' = get_prop v ''value''"
    unfolding d1 [symmetric] by (simp add: get_prop_set_prop)
  have strip: "delete_prop (delete_prop (delete_prop (v @ [(''_id'', ?x), (''_rev'', ?y)]) ''id'') ''value'') ''key''
        = [(''_id'', ?x), (''_rev'', ?y)]"
    using stub_wrappers_stripped [OF keys]
    by (simp add: delete_prop_append) (simp add: delete_prop_def)
  show ?thesis
    using val by (simp add: Let_def d1 value1 d2 strip)
qed

lemma simplifyAllDocSet_stub:
  assumes "\<not> truthy (get_prop opts ''include_docs'')"
    and "fst ` set r \<subseteq> {''id'', ''key'', ''value''}"
    and "\<not> nullish (get_prop r ''value'')"
    and "get_prop r ''id'' = JStr s"
  shows "simplifyAllDocSet opts acc (JObj r) =
           Inr (if \<not> truthy (get_prop opts ''includeDesignDocs'') \<or> prefix ''_design/'' s
                then acc @ [JObj [(''_id'', get_prop r ''id''),
                                  (''_rev'', member (get_prop r ''value'') ''rev'')]]
                else acc)"
proof -
  have first: "get_prop ((k, x) # d) k = x" for k x d
    by (simp add: get_prop_def)
  have row: "rework_row (JObj r) =
      Inr (JObj [(''_id'', JStr s), (''_rev'', member (get_prop r ''value'') ''rev'')])"
    using rework_row_stub [OF assms(2,3)] assms(4) by (simp del: rework_row.simps)
  show ?thesis
    using assms(1,4)
    by (simp add: simplifyAllDocSet_def row designDocRegex_match_def first del: rework_row.simps)
qed

lemma reduce_rows_stubs:
  assumes "\<not> truthy (get_prop opts ''include_docs'')"
    and "\<forall>v\<in>set rows. \<exists>r s. v = JObj r \<and> fst ` set r \<subseteq> {''id'', ''key'', ''value''} \<and>
            \<not> nullish (get_prop r ''value'') \<and> get_prop r ''id'' = JStr s"
  shows "\<exists>res. reduce_rows opts acc rows = Inr (acc @ res) \<and>
           (\<forall>d\<in>set res. \<exists>r. JObj r \<in> set rows \<and>
               d = JObj [(''_id'', get_prop r ''id''), (''_rev'', member (get_prop r ''value'') ''rev'')]) \<and>
           (\<not> truthy (get_prop opts ''includeDesignDocs'') \<longrightarrow> length res = length rows)"
  using assms(2)
proof (induction rows arbitrary: acc)
  case Nil
  then show ?case by simp
next
  case (Cons v rows)
  from Cons.prems obtain r s where v: "v = JObj r"
    and r: "fst ` set r \<subseteq> {''id'', ''key'', ''value''}" "\<not> nullish (get_prop r ''value'')"
      "get_prop r ''id'' = JStr s"
    by auto
  let ?d = "JObj [(''_id'', get_prop r ''id''), (''_rev'', member (get_prop r ''value'') ''rev'')]"
  let ?keep = "\<not> truthy (get_prop opts ''includeDesignDocs'') \<or> prefix ''_design/'' s"
  have step: "simplifyAllDocSet opts acc v = Inr (if ?keep then acc @ [?d] else acc)"
    unfolding v by (rule simplifyAllDocSet_stub [OF assms(1) r])
  from Cons.prems have rest: "\<forall>v\<in>set rows. \<exists>r s. v = JObj r \<and>
      fst ` set r \<subseteq> {''id'', ''key'', ''value''} \<and>
      \<not> nullish (get_prop r ''value'') \<and> get_prop r ''id'' = JStr s"
    by simp
  from Cons.IH [OF rest, of "if ?keep then acc @ [?d] else acc"]
  obtain res where res: "reduce_rows opts (if ?keep then acc @ [?d] else acc) rows
        = Inr ((if ?keep then acc @ [?d] else acc) @ res)"
    and shape: "\<forall>d\<in>set res. \<exists>r. JObj r \<in> set rows \<and>
        d = JObj [(''_id'', get_prop r ''id''), (''_rev'', member (get_prop r ''value'') ''rev'')]"
    and len: "\<not> truthy (get_prop opts ''includeDesignDocs'') \<longrightarrow> length res = length rows"
    by blast
  show ?case
  proof (cases ?keep)
    case True
    have "reduce_rows opts acc (v # rows) = Inr (acc @ (?d # res))"
      using step res True by simp
    moreover have "\<forall>d\<in>set (?d # res). \<exists>r. JObj r \<in> set (v # rows) \<and>
        d = JObj [(''_id'', get_prop r ''id''), (''_rev'', member (get_prop r ''value'') ''rev'')]"
      using shape v by auto
    moreover have "\<not> truthy (get_prop opts ''includeDesignDocs'') \<longrightarrow>
        length (?d # res) = length (v # rows)"
      using len by simp
    ultimately show ?thesis by blast
  next
    case False
    have "reduce_rows opts acc (v # rows) = Inr (acc @ res)"
      using step res False by simp
    moreover have "\<forall>d\<in>set res. \<exists>r. JObj r \<in> set (v # rows) \<and>
        d = JObj [(''_id'', get_prop r ''id''), (''_rev'', member (get_prop r ''value'') ''rev'')]"
      using shape by auto
    moreover have "\<not> truthy (get_prop opts ''includeDesignDocs'') \<longrightarrow>
        length res = length (v # rows)"
      using False by simp
    ultimately show ?thesis by blast
  qed
qed

text \<open>
  Claim C7: \<^verbatim>\<open>all\<close> called with \<^verbatim>\<open>include_docs\<close> set and falsy, on a backend whose reply holds
  rows that are stubs (objects with no properties but \<^verbatim>\<open>id\<close>, \<^verbatim>\<open>key\<close> and \<^verbatim>\<open>value\<close>, the \<^verbatim>\<open>id\<close> a
  string, the \<^verbatim>\<open>value\<close> not null or undefined), is fulfilled, and every element of the array
  is an object with exactly two properties, \<^verbatim>\<open>_id\<close> holding the \<^verbatim>\<open>id\<close> of a row and \<^verbatim>\<open>_rev\<close>
  holding that row's \<^verbatim>\<open>value.rev\<close>; when \<^verbatim>\<open>includeDesignDocs\<close> is falsy there is one element
  per row.
\<close>

theorem all_without_docs_id_and_rev_only:
  assumes "get_prop ob ''include_docs'' \<noteq> JUndefined"
    and "\<not> truthy (get_prop ob ''include_docs'')"
    and "db (AllDocs ob) = Inr docs" and "\<not> nullish docs" and "member docs ''rows'' = JArr rows"
    and "\<forall>v\<in>set rows. \<exists>r s. v = JObj r \<and> fst ` set r \<subseteq> {''id'', ''key'', ''value''} \<and>
            \<not> nullish (get_prop r ''value'') \<and> get_prop r ''id'' = JStr s"
  shows "\<exists>ds. snd (all_docs db (Some ob)) = Fulfilled ds \<and>
           (\<forall>d\<in>set ds. \<exists>r. JObj r \<in> set rows \<and>
               d = JObj [(''_id'', get_prop r ''id''), (''_rev'', member (get_prop r ''value'') ''rev'')]) \<and>
           (\<not> truthy (get_prop ob ''includeDesignDocs'') \<longrightarrow> length ds = length rows)"
proof -
  have opts: "defaults_include_docs (Some ob) = ob"
    using assms(1) by (simp add: defaults_include_docs_def)
  have run: "snd (all_docs db (Some ob)) =
      (case reduce_rows ob [] rows of Inl e \<Rightarrow> Rejected e | Inr r \<Rightarrow> Fulfilled r)"
    using assms(3,4,5) by (simp add: all_docs_def opts handleReceivedDocs_def)
  from reduce_rows_stubs [OF assms(2,6), of "[]"]
  obtain res where "reduce_rows ob [] rows = Inr res"
    and "\<forall>d\<in>set res. \<exists>r. JObj r \<in> set rows \<and>
        d = JObj [(''_id'', get_prop r ''id''), (''_rev'', member (get_prop r ''value'') ''rev'')]"
    and "\<not> truthy (get_prop ob ''includeDesignDocs'') \<longrightarrow> length res = length rows"
    by auto
  then show ?thesis
    unfolding run by simp
qed

theorem all_without_docs_id_and_rev_only_witness:
  "snd (all_docs
      (\<lambda>c. Inr (JObj [(''total_rows'', JNum 2), (''rows'', JArr
          [JObj [(''id'', JStr ''a''), (''key'', JStr ''a''), (''value'', JObj [(''rev'', JStr ''1-x'')])],
           JObj [(''id'', JStr ''b''), (''key'', JStr ''b''), (''value'', JObj [(''rev'', JStr ''2-y'')])]])]))
      (Some [(''include_docs'', JBool False)]))
     = Fulfilled [JObj [(''_id'', JStr ''a''), (''_rev'', JStr ''1-x'')],
                  JObj [(''_id'', JStr ''b''), (''_rev'', JStr ''2-y'')]]"
  using all_without_docs_id_and_rev_only [of "[(''include_docs'', JBool False)]"
      "\<lambda>c. Inr (JObj [(''total_rows'', JNum 2), (''rows'', JArr
          [JObj [(''id'', JStr ''a''), (''key'', JStr ''a''), (''value'', JObj [(''rev'', JStr ''1-x'')])],
           JObj [(''id'', JStr ''b''), (''key'', JStr ''b''), (''value'', JObj [(''rev'', JStr ''2-y'')])]])])"
      "JObj [(''total_rows'', JNum 2), (''rows'', JArr
          [JObj [(''id'', JStr ''a''), (''key'', JStr ''a''), (''value'', JObj [(''rev'', JStr ''1-x'')])],
           JObj [(''id'', JStr ''b''), (''key'', JStr ''b''), (''value'', JObj [(''rev'', JStr ''2-y'')])]])]"
      "[JObj [(''id'', JStr ''a''), (''key'', JStr ''a''), (''value'', JObj [(''rev'', JStr ''1-x'')])],
        JObj [(''id'', JStr ''b''), (''key'', JStr ''b''), (''value'', JObj [(''rev'', JStr ''2-y'')])]]"]
  by (simp add: all_docs_def defaults_include_docs_def handleReceivedDocs_def simplifyAllDocSet_def
        get_prop_def set_prop_def delete_prop_def)

section \<open>all: design documents\<close>

text \<open>
  Claim C1 says that \<^verbatim>\<open>all()\<close> without \<^verbatim>\<open>includeDesignDocs\<close> leaves out every document whose
  identifier starts with \<^verbatim>\<open>_design/\<close>, as the method's own documentation does (``resolves
  to array of documents (excluding any design documents)'').  The reducer pushes every
  document when \<^verbatim>\<open>includeDesignDocs\<close> is falsy, without looking at the identifier: on a
  store holding one ordinary and one design document, \<^verbatim>\<open>all()\<close> returns both.
\<close>

theorem all_default_returns_design_doc:
  "designDocRegex_match (JObj [(''_id'', JStr ''_design/idx''), (''_rev'', JStr ''1-y'')]) = Inr True \<and>
   all_docs
      (\<lambda>c. Inr (JObj [(''total_rows'', JNum 2), (''rows'', JArr
          [JObj [(''id'', JStr ''a''), (''key'', JStr ''a''), (''value'', JObj [(''rev'', JStr ''1-x'')]),
                 (''doc'', JObj [(''_id'', JStr ''a''), (''_rev'', JStr ''1-x'')])],
           JObj [(''id'', JStr ''_design/idx''), (''key'', JStr ''_design/idx''),
                 (''value'', JObj [(''rev'', JStr ''1-y'')]),
                 (''doc'', JObj [(''_id'', JStr ''_design/idx''), (''_rev'', JStr ''1-y'')])]])]))
      None
     = ([AllDocs [(''include_docs'', JBool True)]],
        Fulfilled [JObj [(''_id'', JStr ''a''), (''_rev'', JStr ''1-x'')],
                   JObj [(''_id'', JStr ''_design/idx''), (''_rev'', JStr ''1-y'')]])"
  by (simp add: all_docs_def defaults_include_docs_def handleReceivedDocs_def simplifyAllDocSet_def
        designDocRegex_match_def get_prop_def set_prop_def)

lemma reduce_rows_design_only:
  assumes "truthy (get_prop opts ''includeDesignDocs'')"
  shows "reduce_rows opts acc rows = Inr res \<Longrightarrow>
           \<forall>d\<in>set acc. designDocRegex_match d = Inr True \<Longrightarrow>
           \<forall>d\<in>set res. designDocRegex_match d = Inr True"
proof (induction rows arbitrary: acc)
  case Nil
  then show ?case by simp
next
  case (Cons v rows)
  from Cons.prems(1) obtain acc' where step: "simplifyAllDocSet opts acc v = Inr acc'"
    and rest: "reduce_rows opts acc' rows = Inr res"
    by (auto split: sum.splits)
  have "\<forall>d\<in>set acc'. designDocRegex_match d = Inr True"
    using step assms Cons.prems(2)
    by (auto simp: simplifyAllDocSet_def split: sum.splits if_splits)
  with Cons.IH [OF rest] show ?case by blast
qed

text \<open>
  The other half of the filter does hold: with a truthy \<^verbatim>\<open>includeDesignDocs\<close>, every
  element of a fulfilled \<^verbatim>\<open>all\<close> is a document whose \<^verbatim>\<open>_id\<close> is a string starting with
  \<^verbatim>\<open>_design/\<close>.
\<close>

theorem all_includeDesignDocs_only_design_docs:
  assumes "truthy (get_prop ob ''includeDesignDocs'')"
    and "snd (all_docs db (Some ob)) = Fulfilled ds"
  shows "\<forall>d\<in>set ds. designDocRegex_match d = Inr True"
proof -
  let ?opts = "defaults_include_docs (Some ob)"
  have flag: "truthy (get_prop ?opts ''includeDesignDocs'')"
    using assms(1) by (simp add: defaults_include_docs_def get_prop_set_prop)
  from assms(2) obtain rows where "reduce_rows ?opts [] rows = Inr ds"
    by (auto simp: all_docs_def Let_def handleReceivedDocs_def
          split: sum.splits if_splits jsval.splits)
  from reduce_rows_design_only [OF flag this] show ?thesis by simp
qed

theorem all_includeDesignDocs_only_design_docs_witness:
  "snd (all_docs
      (\<lambda>c. Inr (JObj [(''total_rows'', JNum 2), (''rows'', JArr
          [JObj [(''id'', JStr ''a''), (''key'', JStr ''a''), (''value'', JObj [(''rev'', JStr ''1-x'')]),
                 (''doc'', JObj [(''_id'', JStr ''a''), (''_rev'', JStr ''1-x'')])],
           JObj [(''id'', JStr ''_design/idx''), (''key'', JStr ''_design/idx''),
                 (''value'', JObj [(''rev'', JStr ''1-y'')]),
                 (''doc'', JObj [(''_id'', JStr ''_design/idx''), (''_rev'', JStr ''1-y'')])]])]))
      (Some [(''includeDesignDocs'', JBool True)]))
     = Fulfilled [JObj [(''_id'', JStr ''_design/idx''), (''_rev'', JStr ''1-y'')]] \<and>
   designDocRegex_match (JObj [(''_id'', JStr ''_design/idx''), (''_rev'', JStr ''1-y'')]) = Inr True"
  using all_includeDesignDocs_only_design_docs [of "[(''includeDesignDocs'', JBool True)]"
      "\<lambda>c. Inr (JObj [(''total_rows'', JNum 2), (''rows'', JArr
          [JObj [(''id'', JStr ''a''), (''key'', JStr ''a''), (''value'', JObj [(''rev'', JStr ''1-x'')]),
                 (''doc'', JObj [(''_id'', JStr ''a''), (''_rev'', JStr ''1-x'')])],
           JObj [(''id'', JStr ''_design/idx''), (''key'', JStr ''_design/idx''),
                 (''value'', JObj [(''rev'', JStr ''1-y'')]),
                 (''doc'', JObj [(''_id'', JStr ''_design/idx''), (''_rev'', JStr ''1-y'')])]])])"
      "[JObj [(''_id'', JStr ''_design/idx''), (''_rev'', JStr ''1-y'')]]"]
  by (simp add: all_docs_def defaults_include_docs_def handleReceivedDocs_def simplifyAllDocSet_def
        designDocRegex_match_def get_prop_def set_prop_def)

section \<open>destroy: the order of effects\<close>

lemma event_loop_emitter_alone: "event_loop [EmitterJob n] chain = [CompleteEmitted]"
  by (induction n) simp_all

text \<open>
  Claim C3 says that on a store with a live replication, \<^verbatim>\<open>destroy\<close> binds the \<^verbatim>\<open>complete\<close>
  listener before it cancels, and destroys the database only after \<^verbatim>\<open>complete\<close> has been
  emitted.  The listener is bound first, and the source's comment shows that waiting is
  meant; but the promise is handed to \<^verbatim>\<open>chain.then\<close> itself, not a function returning
  it, so the chain does not wait for it.  With an emitter that emits \<^verbatim>\<open>complete\<close> two jobs
  after \<^verbatim>\<open>cancel()\<close>, the database is destroyed before the event.
\<close>

theorem destroy_live_does_not_wait:
  "destroy_sync \<lparr>syncEmitter = Some (Emitter (Some 2)),
                 replicationOpts = JObj [(''live'', JBool True), (''retry'', JBool True)]\<rparr>
     = ([ListenComplete, Cancel], [NotAFunction, BbPouchyDestroy]) \<and>
   destroy \<lparr>syncEmitter = Some (Emitter (Some 2)),
            replicationOpts = JObj [(''live'', JBool True), (''retry'', JBool True)]\<rparr>
     = [ListenComplete, Cancel, DbDestroy, CompleteEmitted]"
  by (simp add: destroy_def destroy_sync_def destroy_jobs_def get_prop_def numeral_2_eq_2)

text \<open>
  Claim C10: on a store that has a replication handle whose options are absent or not
  \<^verbatim>\<open>live\<close>, \<^verbatim>\<open>destroy\<close> binds no listener, calls \<^verbatim>\<open>cancel()\<close>, and chains
  \<^verbatim>\<open>bbPouchyDestroy\<close> directly on the resolved promise, so that the drain which destroys
  the database is queued before \<^verbatim>\<open>destroy\<close> returns, behind nothing but what \<^verbatim>\<open>cancel()\<close>
  itself has queued.  The database is destroyed whether or not \<^verbatim>\<open>complete\<close> is ever
  emitted; \<^verbatim>\<open>complete\<close> comes first only when the emitter emits it inside \<^verbatim>\<open>cancel()\<close> or in
  the first turn of the job \<^verbatim>\<open>cancel()\<close> has queued, and comes after the destruction when
  the emitter needs a second turn.
\<close>

theorem destroy_one_shot_cancels_and_destroys:
  assumes "syncEmitter p = Some e"
    and "\<not> (truthy (replicationOpts p) \<and> truthy (member (replicationOpts p) ''live''))"
  shows "destroy_sync p = ([Cancel], [BbPouchyDestroy]) \<and>
         destroy_jobs p = cancel_queues (complete_after e) @ [Drain] \<and>
         destroy p =
           (case complete_after e of
              None \<Rightarrow> [Cancel, DbDestroy]
            | Some 0 \<Rightarrow> [Cancel, CompleteEmitted, DbDestroy]
            | Some (Suc 0) \<Rightarrow> [Cancel, CompleteEmitted, DbDestroy]
            | Some (Suc (Suc n)) \<Rightarrow> [Cancel, DbDestroy, CompleteEmitted])"
proof -
  have sync: "destroy_sync p = ([Cancel], [BbPouchyDestroy])"
    using assms by (auto simp: destroy_sync_def)
  have jobs: "destroy_jobs p = cancel_queues (complete_after e) @ [Drain]"
    using assms by (auto simp: destroy_jobs_def)
  have run: "destroy p =
      Cancel # cancel_emits (complete_after e)
        @ event_loop (cancel_queues (complete_after e) @ [Drain]) [BbPouchyDestroy]"
    using assms(1) by (simp add: destroy_def sync jobs)
  have "destroy p =
      (case complete_after e of
         None \<Rightarrow> [Cancel, DbDestroy]
       | Some 0 \<Rightarrow> [Cancel, CompleteEmitted, DbDestroy]
       | Some (Suc 0) \<Rightarrow> [Cancel, CompleteEmitted, DbDestroy]
       | Some (Suc (Suc n)) \<Rightarrow> [Cancel, DbDestroy, CompleteEmitted])"
  proof (cases "complete_after e")
    case None
    then show ?thesis by (simp add: run)
  next
    case (Some k)
    show ?thesis
    proof (cases k)
      case 0
      with Some show ?thesis by (simp add: run)
    next
      case (Suc m)
      show ?thesis
      proof (cases m)
        case 0
        with Some Suc show ?thesis by (simp add: run)
      next
        case (Suc n)
        with Some \<open>k = Suc m\<close> show ?thesis by (simp add: run event_loop_emitter_alone)
      qed
    qed
  qed
  with sync jobs show ?thesis by simp
qed

theorem destroy_one_shot_cancels_and_destroys_witness:
  "destroy \<lparr>syncEmitter = Some (Emitter (Some 3)), replicationOpts = JObj [(''live'', JBool False)]\<rparr>
     = [Cancel, DbDestroy, CompleteEmitted] \<and>
   destroy \<lparr>syncEmitter = Some (Emitter (Some 1)), replicationOpts = JObj [(''live'', JBool False)]\<rparr>
     = [Cancel, CompleteEmitted, DbDestroy] \<and>
   destroy \<lparr>syncEmitter = Some (Emitter None), replicationOpts = JUndefined\<rparr>
     = [Cancel, DbDestroy]"
  using destroy_one_shot_cancels_and_destroys
          [of "\<lparr>syncEmitter = Some (Emitter (Some 3)), replicationOpts = JObj [(''live'', JBool False)]\<rparr>"
              "Emitter (Some 3)"]
        destroy_one_shot_cancels_and_destroys
          [of "\<lparr>syncEmitter = Some (Emitter (Some 1)), replicationOpts = JObj [(''live'', JBool False)]\<rparr>"
              "Emitter (Some 1)"]
        destroy_one_shot_cancels_and_destroys
          [of "\<lparr>syncEmitter = Some (Emitter None), replicationOpts = JUndefined\<rparr>" "Emitter None"]
  by (simp add: get_prop_def numeral_3_eq_3)

text \<open>
  With a live replication the listener is bound before \<^verbatim>\<open>cancel()\<close> is called, whatever the
  emitter does afterwards.
\<close>

theorem destroy_live_listens_before_cancel:
  assumes "syncEmitter p = Some e"
    and "truthy (replicationOpts p)" and "truthy (member (replicationOpts p) ''live'')"
  shows "destroy_sync p = ([ListenComplete, Cancel], [NotAFunction, BbPouchyDestroy]) \<and>
         (\<exists>rest. destroy p = ListenComplete # Cancel # rest)"
  using assms by (simp add: destroy_def destroy_sync_def)

theorem destroy_live_listens_before_cancel_witness:
  "destroy_sync \<lparr>syncEmitter = Some (Emitter (Some 0)),
                 replicationOpts = JObj [(''live'', JBool True)]\<rparr>
     = ([ListenComplete, Cancel], [NotAFunction, BbPouchyDestroy]) \<and>
   destroy \<lparr>syncEmitter = Some (Emitter (Some 0)), replicationOpts = JObj [(''live'', JBool True)]\<rparr>
     = [ListenComplete, Cancel, CompleteEmitted, DbDestroy]"
  using destroy_live_listens_before_cancel
          [of "\<lparr>syncEmitter = Some (Emitter (Some 0)), replicationOpts = JObj [(''live'', JBool True)]\<rparr>"
              "Emitter (Some 0)"]
  by (simp add: destroy_def destroy_sync_def destroy_jobs_def get_prop_def)

text \<open>Without a replication handle \<^verbatim>\<open>destroy\<close> does nothing but destroy the database.\<close>

theorem destroy_without_replication:
  assumes "syncEmitter p = None"
  shows "destroy p = [DbDestroy]"
  using assms by (simp add: destroy_def destroy_sync_def destroy_jobs_def)

theorem destroy_without_replication_witness:
  "destroy \<lparr>syncEmitter = None, replicationOpts = JUndefined\<rparr> = [DbDestroy]"
  using destroy_without_replication [of "\<lparr>syncEmitter = None, replicationOpts = JUndefined\<rparr>"]
  by simp

end
